theory Spec2Isabelle
  imports Main
begin

section \<open>The read key and the output stream\<close>

text \<open>
  Modelled from the spec: the class \<open>read_key\<close> is declared in the header
  \<open>starling_common/starling_read_key.hh\<close>, which is not among the sources. The
  operator under verification reads a key only through its two accessors
  \<open>qname()\<close> and \<open>read_no()\<close>; the spec describes the first as a text and the second
  as a small integer. A key is therefore a record of the two values the accessors return.
  The integer is unbounded here, which covers every width the C++ integer type can have.
\<close>

record read_key =
  qname :: string
  read_no :: int

text \<open>
  A \<open>std::ostream\<close> is the sequence of characters written to it so far. Streams are
  taken in the state of a freshly constructed stream: good, decimal base, field width 0.
\<close>

record ostream =
  buf :: string

text \<open>
  The operator receives both arguments by reference (\<open>std::ostream& os\<close>,
  \<open>const read_key& rk\<close>) and returns a reference. References are addresses into a store
  that holds the stream objects and the key objects.
\<close>

type_synonym ref = nat

record heap =
  streams :: "ref \<Rightarrow> ostream"
  keys :: "ref \<Rightarrow> read_key"

section \<open>The inserters of the standard library\<close>

text \<open>Decimal formatting of an integer, as \<open>os << int\<close> does in the default state.\<close>

definition digit_char :: "nat \<Rightarrow> char" where
  "digit_char d = char_of (48 + d)"

fun dec_nat :: "nat \<Rightarrow> string" where
  "dec_nat n = (if n < 10 then [digit_char n] else dec_nat (n div 10) @ [digit_char (n mod 10)])"

definition dec_int :: "int \<Rightarrow> string" where
  "dec_int i = (if i < 0 then CHR ''-'' # dec_nat (nat (- i)) else dec_nat (nat i))"

definition put :: "heap \<Rightarrow> ref \<Rightarrow> string \<Rightarrow> heap" where
  "put h os s = h\<lparr>streams := (streams h)(os := (streams h os)\<lparr>buf := buf (streams h os) @ s\<rparr>)\<rparr>"

text \<open>
  Each inserter appends to the stream its left operand refers to and returns that
  reference, so that insertions chain: \<open>os << a << b\<close> is \<open>(os << a) << b\<close>.
\<close>

definition ins_str :: "heap \<times> ref \<Rightarrow> string \<Rightarrow> heap \<times> ref" where
  "ins_str hr s = (case hr of (h, os) \<Rightarrow> (put h os s, os))"

definition ins_char :: "heap \<times> ref \<Rightarrow> char \<Rightarrow> heap \<times> ref" where
  "ins_char hr c = (case hr of (h, os) \<Rightarrow> (put h os [c], os))"

definition ins_int :: "heap \<times> ref \<Rightarrow> int \<Rightarrow> heap \<times> ref" where
  "ins_int hr i = (case hr of (h, os) \<Rightarrow> (put h os (dec_int i), os))"

section \<open>The stream-insertion operator of \<open>starling_read_key.cpp\<close>\<close>

text \<open>
  \<^verbatim>\<open>
  std::ostream&
  operator<<(std::ostream& os, const read_key& rk) {
      os << rk.qname() << '/' << rk.read_no();
      return os;
  }
  \<close>
  The three insertions run from left to right; each accessor reads the key object in
  the store as it is at that moment. The function returns its own parameter \<open>os\<close>.
\<close>

definition operator_shl :: "heap \<Rightarrow> ref \<Rightarrow> ref \<Rightarrow> heap \<times> ref" where
  "operator_shl h os rk =
     (let r1 = ins_str (h, os) (qname (keys h rk));
          r2 = ins_char r1 CHR ''/'';
          r3 = ins_int r2 (read_no (keys (fst r2) rk))
      in (fst r3, os))"

text \<open>
  The spec reframes the operator as a function \<open>render\<close> from a key to a text: the
  characters the operator writes to a fresh, empty stream.
\<close>

definition fresh :: "read_key \<Rightarrow> heap" where
  "fresh rk = \<lparr>streams = (\<lambda>_. \<lparr>buf = []\<rparr>), keys = (\<lambda>_. rk)\<rparr>"

definition render :: "read_key \<Rightarrow> string" where
  "render rk = buf (streams (fst (operator_shl (fresh rk) 0 0)) 0)"

section \<open>Reading a decimal numeral back\<close>

text \<open>
  The value a string of decimal digits denotes, most significant digit first. It is
  the yardstick for \<open>dec_nat\<close> and \<open>dec_int\<close>: a rendering is the decimal one when
  reading it back gives the integer.
\<close>

definition digit_val :: "char \<Rightarrow> nat" where
  "digit_val c = of_char c - 48"

definition is_digit :: "char \<Rightarrow> bool" where
  "is_digit c = (48 \<le> (of_char c :: nat) \<and> (of_char c :: nat) \<le> 57)"

definition dec_value :: "string \<Rightarrow> nat" where
  "dec_value s = foldl (\<lambda>a c. 10 * a + digit_val c) 0 s"

fun int_value :: "string \<Rightarrow> int" where
  "int_value [] = 0"
| "int_value (c # cs) = (if c = CHR ''-'' then - int (dec_value cs) else int (dec_value (c # cs)))"

section \<open>Construction, equality and ordering\<close>

text \<open>
  Modelled from the spec: the enumeration of read numbers and its integer encoding.
  The header that declares \<open>read_key\<close> is not among the sources; the spec fixes three
  variants and the integers they are rendered as.
\<close>

datatype read_no_t = UNKNOWN_OR_UNPAIRED | FIRST_MATE | SECOND_MATE

fun read_no_as_integer :: "read_no_t \<Rightarrow> int" where
  "read_no_as_integer UNKNOWN_OR_UNPAIRED = 0"
| "read_no_as_integer FIRST_MATE = 1"
| "read_no_as_integer SECOND_MATE = 2"

text \<open>
  Modelled from the spec: construction. The constructor of \<open>read_key\<close> is not among
  the sources. The spec has \<open>make\<close> succeed for every non-empty \<open>qname\<close> and fail with
  \<open>InvalidArgument\<close>, its only error kind, for the empty one.
\<close>

datatype error = InvalidArgument

definition make :: "string \<Rightarrow> read_no_t \<Rightarrow> error + read_key" where
  "make q r = (if q = [] then Inl InvalidArgument
               else Inr \<lparr>qname = q, read_no = read_no_as_integer r\<rparr>)"

text \<open>
  Modelled from the spec: equality. The comparison operators of \<open>read_key\<close> are not
  among the sources. The spec has two keys equal when their names are byte-equal and
  their read numbers the same.
\<close>

definition equals :: "read_key \<Rightarrow> read_key \<Rightarrow> bool" where
  "equals a b = (qname a = qname b \<and> read_no a = read_no b)"

text \<open>
  Modelled from the spec: ordering. The spec has \<open>compare\<close> return one of
  \<open>less\<close>, \<open>equal\<close>, \<open>greater\<close>, lexicographically on the pair of name and read
  number, the read number compared as an integer. Names are compared byte by byte, a
  proper prefix before its extensions.
\<close>

datatype ordering = Less | Equal | Greater

definition byte :: "char \<Rightarrow> nat" where
  "byte c = of_char c"

fun compare_text :: "string \<Rightarrow> string \<Rightarrow> ordering" where
  "compare_text [] [] = Equal"
| "compare_text [] (y # ys) = Less"
| "compare_text (x # xs) [] = Greater"
| "compare_text (x # xs) (y # ys) =
     (if byte x < byte y then Less
      else if byte y < byte x then Greater
      else compare_text xs ys)"

definition compare_int :: "int \<Rightarrow> int \<Rightarrow> ordering" where
  "compare_int i j = (if i < j then Less else if j < i then Greater else Equal)"

definition compare :: "read_key \<Rightarrow> read_key \<Rightarrow> ordering" where
  "compare a b =
     (case compare_text (qname a) (qname b) of
        Less \<Rightarrow> Less
      | Greater \<Rightarrow> Greater
      | Equal \<Rightarrow> compare_int (read_no a) (read_no b))"

section \<open>The operations of the component on the store\<close>

text \<open>
  Modelled from the spec: the operations \<open>equals\<close> and \<open>compare\<close>, whose code is not
  among the sources, take two keys and return a truth value and an ordering, and
  nothing else; applied to keys in the store they leave the store as it is. The third
  operation, rendering, is the operator above. \<open>run\<close> applies a sequence of operations
  one after the other.
\<close>

datatype operation = Equals ref ref | Compare ref ref | Render ref ref

datatype result = Truth bool | Order ordering | Stream ref

fun apply_operation :: "heap \<Rightarrow> operation \<Rightarrow> heap \<times> result" where
  "apply_operation h (Equals a b) = (h, Truth (equals (keys h a) (keys h b)))"
| "apply_operation h (Compare a b) = (h, Order (compare (keys h a) (keys h b)))"
| "apply_operation h (Render os rk) = (case operator_shl h os rk of (h', os') \<Rightarrow> (h', Stream os'))"

fun run :: "heap \<Rightarrow> operation list \<Rightarrow> heap" where
  "run h [] = h"
| "run h (x # xs) = run (fst (apply_operation h x)) xs"

section \<open>Basic facts\<close>

declare dec_nat.simps [simp del]

lemma streams_put: "streams (put h os s) = (streams h)(os := (streams h os)\<lparr>buf := buf (streams h os) @ s\<rparr>)"
  by (simp add: put_def)

lemma keys_put: "keys (put h os s) = keys h"
  by (simp add: put_def)

lemma put_put: "put (put h os s) os t = put h os (s @ t)"
  by (simp add: put_def)

lemma operator_shl_put:
  "operator_shl h os rk = (put h os (qname (keys h rk) @ [CHR ''/''] @ dec_int (read_no (keys h rk))), os)"
  by (simp add: operator_shl_def ins_str_def ins_char_def ins_int_def Let_def keys_put put_put)

lemma render_eq: "render rk = qname rk @ [CHR ''/''] @ dec_int (read_no rk)"
  by (simp add: render_def operator_shl_put fresh_def put_def)

subsection \<open>The order on names\<close>

lemma byte_inj: "byte x = byte y \<longleftrightarrow> x = y"
  by (simp add: byte_def)

lemma byte_eqI: "\<not> byte x < byte y \<Longrightarrow> \<not> byte y < byte x \<Longrightarrow> x = y"
  using byte_inj [of x y] by linarith

lemma compare_text_refl: "compare_text xs xs = Equal"
  by (induction xs) simp_all

lemma compare_text_Equal: "compare_text xs ys = Equal \<longleftrightarrow> xs = ys"
proof
  show "compare_text xs ys = Equal \<Longrightarrow> xs = ys"
    by (induction xs ys rule: compare_text.induct) (simp_all split: if_splits add: byte_eqI)
  show "xs = ys \<Longrightarrow> compare_text xs ys = Equal"
    by (simp add: compare_text_refl)
qed


lemma compare_text_swap: "compare_text xs ys = Less \<longleftrightarrow> compare_text ys xs = Greater"
  by (induction xs ys rule: compare_text.induct) simp_all

lemma compare_text_lexord:
  "compare_text xs ys = Less \<longleftrightarrow> (xs, ys) \<in> lexord {(x, y). byte x < byte y}"
proof (induction xs ys rule: compare_text.induct)
  case (4 x xs y ys)
  show ?case
  proof (cases "byte x < byte y")
    case True
    then show ?thesis by simp
  next
    case False
    note nlt = this
    show ?thesis
    proof (cases "byte y < byte x")
      case True
      with nlt have "x \<noteq> y" by auto
      with True nlt show ?thesis by simp
    next
      case False
      with nlt have "x = y" by (rule byte_eqI)
      with nlt False 4 show ?thesis by simp
    qed
  qed
qed simp_all

lemma compare_text_trans:
  "compare_text xs ys = Less \<Longrightarrow> compare_text ys zs = Less \<Longrightarrow> compare_text xs zs = Less"
proof (induction xs ys arbitrary: zs rule: compare_text.induct)
  case 1
  then show ?case by simp
next
  case (2 y ys)
  then show ?case by (cases zs) (simp_all split: if_splits)
next
  case (3 x xs)
  then show ?case by simp
next
  case (4 x xs y ys)
  from "4.prems"(2) obtain z zs' where zs: "zs = z # zs'"
    by (cases zs) simp_all
  from "4.prems"(1) have xy: "byte x < byte y \<or> (byte x = byte y \<and> compare_text xs ys = Less)"
    by (simp split: if_splits)
  from "4.prems"(2) zs have yz: "byte y < byte z \<or> (byte y = byte z \<and> compare_text ys zs' = Less)"
    by (simp split: if_splits)
  show ?case
  proof (cases "byte x = byte y \<and> byte y = byte z")
    case True
    with xy yz have "compare_text xs ys = Less" "compare_text ys zs' = Less" by simp_all
    with True "4.IH" [of zs'] have "compare_text xs zs' = Less" by simp
    with True zs show ?thesis by simp
  next
    case False
    with xy yz have "byte x < byte z" by linarith
    with zs show ?thesis by simp
  qed
qed

subsection \<open>Decimal rendering\<close>

lemma digit_val_digit_char: "d < 10 \<Longrightarrow> digit_val (digit_char d) = d"
  by (simp add: digit_val_def digit_char_def)

lemma is_digit_digit_char: "d < 10 \<Longrightarrow> is_digit (digit_char d)"
  by (simp add: is_digit_def digit_char_def)

lemma dec_value_snoc: "dec_value (s @ [c]) = 10 * dec_value s + digit_val c"
  by (simp add: dec_value_def)

lemma dec_value_single: "dec_value [c] = digit_val c"
  by (simp add: dec_value_def)

lemma dec_value_dec_nat: "dec_value (dec_nat n) = n"
proof (induction n rule: dec_nat.induct)
  case (1 n)
  show ?case
  proof (cases "n < 10")
    case True
    then show ?thesis
      by (simp add: dec_nat.simps [of n] dec_value_single digit_val_digit_char)
  next
    case False
    with 1 have "dec_value (dec_nat (n div 10)) = n div 10" by simp
    with False show ?thesis
      by (simp add: dec_nat.simps [of n] dec_value_snoc digit_val_digit_char)
  qed
qed

lemma dec_nat_digits: "list_all is_digit (dec_nat n)"
proof (induction n rule: dec_nat.induct)
  case (1 n)
  show ?case
  proof (cases "n < 10")
    case True
    then show ?thesis
      by (simp add: dec_nat.simps [of n] is_digit_digit_char)
  next
    case False
    with 1 have "list_all is_digit (dec_nat (n div 10))" by simp
    with False show ?thesis
      by (simp add: dec_nat.simps [of n] is_digit_digit_char)
  qed
qed

lemma dec_nat_not_Nil: "dec_nat n \<noteq> []"
  by (simp add: dec_nat.simps [of n])

lemma dec_nat_small: "n < 10 \<Longrightarrow> dec_nat n = [digit_char n]"
  by (simp add: dec_nat.simps [of n])

lemma of_char_digit_char: "d < 10 \<Longrightarrow> of_char (digit_char d) = (48 + d :: nat)"
  by (simp add: digit_char_def)

lemma digit_char_not_zero: "0 < d \<Longrightarrow> d < 10 \<Longrightarrow> digit_char d \<noteq> CHR ''0''"
proof
  assume "0 < d" "d < 10" "digit_char d = CHR ''0''"
  then have "(of_char (digit_char d) :: nat) = of_char CHR ''0''" by (simp only:)
  with \<open>d < 10\<close> have "48 + d = (48 :: nat)" by (simp add: of_char_digit_char)
  with \<open>0 < d\<close> show False by simp
qed

lemma hd_dec_nat: "0 < n \<Longrightarrow> hd (dec_nat n) \<noteq> CHR ''0''"
proof (induction n rule: dec_nat.induct)
  case (1 n)
  show ?case
  proof (cases "n < 10")
    case True
    with "1.prems" show ?thesis
      by (simp add: dec_nat.simps [of n] digit_char_not_zero)
  next
    case False
    then have "0 < n div 10" by simp
    with 1 False have "hd (dec_nat (n div 10)) \<noteq> CHR ''0''" by simp
    with False show ?thesis
      by (simp add: dec_nat.simps [of n] dec_nat_not_Nil)
  qed
qed

lemma minus_not_digit: "\<not> is_digit CHR ''-''"
  by (simp add: is_digit_def)

lemma dec_nat_no_sign: "dec_nat n = c # cs \<Longrightarrow> c \<noteq> CHR ''-''"
  using dec_nat_digits [of n] minus_not_digit by auto

lemma int_value_dec_int: "int_value (dec_int i) = i"
proof (cases "i < 0")
  case True
  then show ?thesis by (simp add: dec_int_def dec_value_dec_nat)
next
  case False
  obtain c cs where eq: "dec_nat (nat i) = c # cs"
    using dec_nat_not_Nil [of "nat i"] by (cases "dec_nat (nat i)") simp_all
  then have "c \<noteq> CHR ''-''" by (rule dec_nat_no_sign)
  moreover have "dec_value (c # cs) = nat i"
    using dec_value_dec_nat [of "nat i"] eq by simp
  ultimately show ?thesis using False eq by (simp add: dec_int_def)
qed

lemma dec_int_inj: "dec_int i = dec_int j \<Longrightarrow> i = j"
proof -
  assume "dec_int i = dec_int j"
  then have "int_value (dec_int i) = int_value (dec_int j)" by (simp only:)
  then show "i = j" by (simp only: int_value_dec_int)
qed

lemma dec_nat_step: "10 \<le> n \<Longrightarrow> dec_nat n = dec_nat (n div 10) @ [digit_char (n mod 10)]"
  by (simp add: dec_nat.simps [of n])

lemma digit_chars:
  "digit_char 0 = CHR ''0''" "digit_char 1 = CHR ''1''" "digit_char 2 = CHR ''2''"
  "digit_char 3 = CHR ''3''" "digit_char 4 = CHR ''4''" "digit_char 5 = CHR ''5''"
  "digit_char 6 = CHR ''6''" "digit_char 7 = CHR ''7''" "digit_char 8 = CHR ''8''"
  "digit_char 9 = CHR ''9''" "digit_char (Suc 0) = CHR ''1''"
  by code_simp+

lemma dec_int_small: "0 \<le> i \<Longrightarrow> i < 10 \<Longrightarrow> dec_int i = [digit_char (nat i)]"
  by (simp add: dec_int_def dec_nat_small)

lemma dec_int_digits: "dec_int 0 = ''0''" "dec_int 1 = ''1''" "dec_int 2 = ''2''"
  by (simp_all add: dec_int_small digit_chars)

subsection \<open>The operator on the store\<close>

lemma keys_operator_shl: "keys (fst (operator_shl h os rk)) = keys h"
  by (simp add: operator_shl_put keys_put)

lemma buf_operator_shl:
  "buf (streams (fst (operator_shl h os rk)) os) = buf (streams h os) @ render (keys h rk)"
  by (simp add: operator_shl_put streams_put render_eq)

lemma streams_operator_shl_other:
  "os' \<noteq> os \<Longrightarrow> streams (fst (operator_shl h os rk)) os' = streams h os'"
  by (simp add: operator_shl_put streams_put)

lemma snd_operator_shl: "snd (operator_shl h os rk) = os"
  by (simp add: operator_shl_put)

lemma keys_apply_operation: "keys (fst (apply_operation h x)) = keys h"
  by (cases x) (simp_all add: keys_operator_shl split: prod.splits, simp add: operator_shl_put keys_put)

lemma keys_run: "keys (run h xs) = keys h"
  by (induction xs arbitrary: h) (simp_all add: keys_apply_operation)

lemma read_no_as_integer_inj: "read_no_as_integer r = read_no_as_integer r' \<longleftrightarrow> r = r'"
  by (cases r; cases r') simp_all

lemma dec_int_read_no: "dec_int (read_no_as_integer r) = [digit_char (nat (read_no_as_integer r))]"
  by (cases r) (simp_all add: dec_int_def dec_nat_small)

lemma compare_Equal: "compare a b = Equal \<longleftrightarrow> equals a b"
  by (auto simp add: compare_def equals_def compare_int_def compare_text_Equal compare_text_refl split: ordering.splits if_splits)

lemma compare_Less:
  "compare a b = Less \<longleftrightarrow>
     compare_text (qname a) (qname b) = Less \<or> qname a = qname b \<and> read_no a < read_no b"
  by (auto simp add: compare_def compare_int_def compare_text_Equal compare_text_refl split: ordering.splits if_splits)

lemma compare_Greater:
  "compare a b = Greater \<longleftrightarrow>
     compare_text (qname a) (qname b) = Greater \<or> qname a = qname b \<and> read_no b < read_no a"
  by (auto simp add: compare_def compare_int_def compare_text_Equal compare_text_refl split: ordering.splits if_splits)

lemma compare_swap: "compare a b = Less \<longleftrightarrow> compare b a = Greater"
  unfolding compare_Less compare_Greater compare_text_swap [of "qname a" "qname b"] by auto

lemma compare_text_irrefl: "compare_text xs xs \<noteq> Less"
  by (simp add: compare_text_refl)

lemma compare_trans:
  assumes "compare a b = Less" and "compare b c = Less"
  shows "compare a c = Less"
proof -
  from assms(1) consider
      (l1) "compare_text (qname a) (qname b) = Less"
    | (e1) "qname a = qname b" "read_no a < read_no b"
    by (auto simp: compare_Less)
  then show ?thesis
  proof cases
    case l1
    from assms(2) consider
        (l2) "compare_text (qname b) (qname c) = Less"
      | (e2) "qname b = qname c" "read_no b < read_no c"
      by (auto simp: compare_Less)
    then show ?thesis
    proof cases
      case l2
      with l1 have "compare_text (qname a) (qname c) = Less" by (rule compare_text_trans)
      then show ?thesis by (simp add: compare_Less)
    next
      case e2
      with l1 show ?thesis by (simp add: compare_Less)
    qed
  next
    case e1
    from assms(2) consider
        (l2) "compare_text (qname b) (qname c) = Less"
      | (e2) "qname b = qname c" "read_no b < read_no c"
      by (auto simp: compare_Less)
    then show ?thesis
    proof cases
      case l2
      with e1 show ?thesis by (simp add: compare_Less)
    next
      case e2
      with e1 show ?thesis by (simp add: compare_Less)
    qed
  qed
qed

section \<open>The claims\<close>

text \<open>
  Claim C1. A valid key has a non-empty name and, as read number, the integer
  encoding of one of the three variants; it is the key \<open>make\<close> builds from that name
  and variant. Rendering it gives exactly the name, one \<open>/\<close> and the decimal numeral of
  the encoding: the numeral reads back as the encoding, the text is two characters
  longer than the name (one separator, one digit, no padding) and its last character
  is a digit (no trailing newline).
\<close>

theorem render_valid_key:
  "qname rk \<noteq> [] \<Longrightarrow> read_no rk = read_no_as_integer r \<Longrightarrow>
     make (qname rk) r = Inr rk
     \<and> render rk = qname rk @ ''/'' @ dec_int (read_no_as_integer r)
     \<and> int_value (dec_int (read_no_as_integer r)) = read_no_as_integer r
     \<and> length (render rk) = length (qname rk) + 2
     \<and> is_digit (last (render rk))"
proof -
  assume q: "qname rk \<noteq> []" and n: "read_no rk = read_no_as_integer r"
  have m: "make (qname rk) r = Inr rk"
    using q n by (simp add: make_def)
  have d: "is_digit (digit_char (nat (read_no_as_integer r)))"
    by (cases r) (simp_all add: is_digit_digit_char)
  have t: "render rk = qname rk @ ''/'' @ dec_int (read_no_as_integer r)"
    using n by (simp add: render_eq)
  have l: "length (render rk) = length (qname rk) + 2"
    by (simp add: t dec_int_read_no)
  have e: "is_digit (last (render rk))"
    using d by (simp add: t dec_int_read_no)
  from m t l e int_value_dec_int [of "read_no_as_integer r"] show ?thesis
    by blast
qed

theorem render_valid_key_witness:
  "qname \<lparr>qname = ''a'', read_no = 1\<rparr> \<noteq> []
   \<and> read_no \<lparr>qname = ''a'', read_no = 1\<rparr> = read_no_as_integer FIRST_MATE
   \<and> make ''a'' FIRST_MATE = Inr \<lparr>qname = ''a'', read_no = 1\<rparr>
   \<and> render \<lparr>qname = ''a'', read_no = 1\<rparr> = ''a/1''
   \<and> length (render \<lparr>qname = ''a'', read_no = 1\<rparr>) = 3"
  using render_valid_key [of "\<lparr>qname = ''a'', read_no = 1\<rparr>" FIRST_MATE]
  by (simp add: dec_int_digits)

text \<open>
  Claim C2. The encoding of the read number is \<open>UNKNOWN_OR_UNPAIRED\<close> to 0,
  \<open>FIRST_MATE\<close> to 1 and \<open>SECOND_MATE\<close> to 2, and the keys built from the name
  \<open>SRR000001.123\<close> and the three variants render as \<open>SRR000001.123/0\<close>,
  \<open>SRR000001.123/1\<close> and \<open>SRR000001.123/2\<close>.
\<close>

theorem read_no_encoding:
  "read_no_as_integer UNKNOWN_OR_UNPAIRED = 0
   \<and> read_no_as_integer FIRST_MATE = 1
   \<and> read_no_as_integer SECOND_MATE = 2
   \<and> map_sum id render (make ''SRR000001.123'' UNKNOWN_OR_UNPAIRED) = Inr ''SRR000001.123/0''
   \<and> map_sum id render (make ''SRR000001.123'' FIRST_MATE) = Inr ''SRR000001.123/1''
   \<and> map_sum id render (make ''SRR000001.123'' SECOND_MATE) = Inr ''SRR000001.123/2''"
  by (simp add: make_def render_eq dec_int_digits)

text \<open>
  Claim C3. \<open>make\<close> succeeds for every non-empty name and every variant, with
  the key of that name and that variant's encoding; it fails with \<open>InvalidArgument\<close>
  exactly when the name is empty; every failure is \<open>InvalidArgument\<close> on an empty name;
  and \<open>make\<close> of the empty name and \<open>FIRST_MATE\<close> fails with \<open>InvalidArgument\<close>. The
  other operations, \<open>equals\<close>, \<open>compare\<close> and \<open>render\<close>, are total functions with no
  error result.
\<close>

theorem make_result:
  "(q \<noteq> [] \<longrightarrow> make q r = Inr \<lparr>qname = q, read_no = read_no_as_integer r\<rparr>)
   \<and> (make q r = Inl InvalidArgument \<longleftrightarrow> q = [])
   \<and> (\<forall>e. make q r = Inl e \<longrightarrow> e = InvalidArgument \<and> q = [])
   \<and> make [] FIRST_MATE = Inl InvalidArgument"
  by (auto simp add: make_def split: if_splits)

theorem make_result_witness:
  "make ''a'' SECOND_MATE = Inr \<lparr>qname = ''a'', read_no = 2\<rparr>
   \<and> make [] SECOND_MATE = Inl InvalidArgument"
  using make_result [of "''a''" SECOND_MATE] make_result [of "[]" SECOND_MATE]
  by simp

text \<open>
  Claim C4. Two keys are \<open>equals\<close> exactly when their names are byte-equal and
  their read numbers the same, that is, when they are the same value; for keys built by
  \<open>make\<close>, exactly when the names are equal and the variants the same.
\<close>

theorem equals_iff:
  "(equals a b \<longleftrightarrow> qname a = qname b \<and> read_no a = read_no b)
   \<and> (equals a b \<longleftrightarrow> a = b)
   \<and> (make q r = Inr a \<longrightarrow> make q' r' = Inr b \<longrightarrow> (equals a b \<longleftrightarrow> q = q' \<and> r = r'))"
  by (auto simp add: equals_def make_def read_no_as_integer_inj split: if_splits)

theorem equals_iff_witness:
  "make ''a'' FIRST_MATE = Inr \<lparr>qname = ''a'', read_no = 1\<rparr>
   \<and> make ''a'' SECOND_MATE = Inr \<lparr>qname = ''a'', read_no = 2\<rparr>
   \<and> equals \<lparr>qname = ''a'', read_no = 1\<rparr> \<lparr>qname = ''a'', read_no = 1\<rparr>
   \<and> \<not> equals \<lparr>qname = ''a'', read_no = 1\<rparr> \<lparr>qname = ''a'', read_no = 2\<rparr>"
  using equals_iff [of "\<lparr>qname = ''a'', read_no = 1\<rparr>" "\<lparr>qname = ''a'', read_no = 1\<rparr>" "''a''" FIRST_MATE "''a''" FIRST_MATE]
    equals_iff [of "\<lparr>qname = ''a'', read_no = 1\<rparr>" "\<lparr>qname = ''a'', read_no = 2\<rparr>" "''a''" FIRST_MATE "''a''" SECOND_MATE]
  by (simp add: make_def)

text \<open>
  Claim C5. \<open>compare\<close> is a strict total order on keys: it returns \<open>Equal\<close>
  exactly on keys that are \<open>equals\<close>; \<open>Less\<close> one way is \<open>Greater\<close> the other way, so
  no two keys are \<open>Less\<close> both ways; \<open>Less\<close> is transitive; any two keys are ordered
  one way, the other, or equal; and the order is the lexicographic one on the pair of
  name and read number, names by the lexicographic order of their bytes, read numbers
  as integers.
\<close>

theorem compare_total_order:
  "(compare a b = Equal \<longleftrightarrow> equals a b)
   \<and> (compare a b = Less \<longleftrightarrow> compare b a = Greater)
   \<and> \<not> (compare a b = Less \<and> compare b a = Less)
   \<and> (compare a b = Less \<longrightarrow> compare b c = Less \<longrightarrow> compare a c = Less)
   \<and> (compare a b = Less \<or> equals a b \<or> compare b a = Less)
   \<and> (compare a b = Less \<longleftrightarrow>
         (qname a, qname b) \<in> lexord {(x, y). byte x < byte y}
         \<or> qname a = qname b \<and> read_no a < read_no b)"
proof -
  have eq: "compare a b = Equal \<longleftrightarrow> equals a b"
    by (rule compare_Equal)
  have sw: "compare a b = Less \<longleftrightarrow> compare b a = Greater"
    by (rule compare_swap)
  have asym: "\<not> (compare a b = Less \<and> compare b a = Less)"
    using sw by auto
  have tr: "compare a b = Less \<longrightarrow> compare b c = Less \<longrightarrow> compare a c = Less"
    using compare_trans by blast
  have tot: "compare a b = Less \<or> equals a b \<or> compare b a = Less"
  proof (cases "compare a b")
    case Less
    then show ?thesis by simp
  next
    case Equal
    with eq show ?thesis by simp
  next
    case Greater
    then have "compare b a = Less" by (simp add: compare_swap [of b a])
    then show ?thesis by simp
  qed
  have lex: "compare a b = Less \<longleftrightarrow>
      (qname a, qname b) \<in> lexord {(x, y). byte x < byte y}
      \<or> qname a = qname b \<and> read_no a < read_no b"
    by (simp only: compare_Less compare_text_lexord)
  from eq sw asym tr tot lex show ?thesis by blast
qed

theorem compare_total_order_witness:
  "compare \<lparr>qname = ''ab'', read_no = 2\<rparr> \<lparr>qname = ''abc'', read_no = 1\<rparr> = Less
   \<and> compare \<lparr>qname = ''abc'', read_no = 1\<rparr> \<lparr>qname = ''abc'', read_no = 2\<rparr> = Less
   \<and> compare \<lparr>qname = ''ab'', read_no = 2\<rparr> \<lparr>qname = ''abc'', read_no = 2\<rparr> = Less
   \<and> compare \<lparr>qname = ''abc'', read_no = 1\<rparr> \<lparr>qname = ''ab'', read_no = 2\<rparr> = Greater"
  using compare_total_order [of "\<lparr>qname = ''ab'', read_no = 2\<rparr>" "\<lparr>qname = ''abc'', read_no = 1\<rparr>"
      "\<lparr>qname = ''abc'', read_no = 2\<rparr>"]
  by (simp add: compare_def compare_int_def byte_def)

text \<open>
  Claim C6. Rendering is a function of the key's value: keys that are \<open>equals\<close>
  render to the same text. The operator leaves every key in the store as it was and
  appends to the stream exactly the rendering of the key, for every store, stream and
  key, without an error branch; invoked twice on the same key it appends the same text
  twice. The rendering is always the name, \<open>/\<close> and the decimal read number.
\<close>

theorem render_pure:
  "(equals a b \<longrightarrow> render a = render b)
   \<and> keys (fst (operator_shl h os rk)) = keys h
   \<and> buf (streams (fst (operator_shl h os rk)) os) = buf (streams h os) @ render (keys h rk)
   \<and> buf (streams (fst (operator_shl (fst (operator_shl h os rk)) os rk)) os)
       = buf (streams h os) @ render (keys h rk) @ render (keys h rk)
   \<and> render a = qname a @ ''/'' @ dec_int (read_no a)"
proof -
  have "equals a b \<longrightarrow> render a = render b"
    by (simp add: equals_def render_eq)
  moreover have "buf (streams (fst (operator_shl (fst (operator_shl h os rk)) os rk)) os)
       = buf (streams h os) @ render (keys h rk) @ render (keys h rk)"
    by (simp add: buf_operator_shl keys_operator_shl)
  ultimately show ?thesis
    by (simp add: keys_operator_shl buf_operator_shl render_eq)
qed

theorem render_pure_witness:
  "equals \<lparr>qname = ''r7'', read_no = 1\<rparr> \<lparr>qname = ''r7'', read_no = 1\<rparr>
   \<and> render \<lparr>qname = ''r7'', read_no = 1\<rparr> = ''r7/1''"
  using render_pure [of "\<lparr>qname = ''r7'', read_no = 1\<rparr>" "\<lparr>qname = ''r7'', read_no = 1\<rparr>"]
  by (simp add: equals_def dec_int_digits)

text \<open>
  Claim C7. No operation of the component changes a key: after one operation, and
  after any sequence of operations, every key in the store has the name and the read
  number it had before.
\<close>

theorem read_key_immutable:
  "keys (fst (apply_operation h x)) = keys h
   \<and> keys (run h xs) = keys h
   \<and> qname (keys (run h xs) k) = qname (keys h k)
   \<and> read_no (keys (run h xs) k) = read_no (keys h k)"
  by (simp add: keys_apply_operation keys_run)

text \<open>
  Claim C8. The operator returns the reference it received as its first argument.
  Hence a second key inserted into the returned reference goes to the same stream, after
  the first, and so does a character inserted into the returned reference.
\<close>

theorem operator_shl_returns_stream:
  "snd (operator_shl h os rk) = os
   \<and> snd (operator_shl (fst (operator_shl h os rk)) (snd (operator_shl h os rk)) rk') = os
   \<and> buf (streams (fst (operator_shl (fst (operator_shl h os rk)) (snd (operator_shl h os rk)) rk')) os)
       = buf (streams h os) @ render (keys h rk) @ render (keys h rk')
   \<and> snd (ins_char (operator_shl h os rk) c) = os
   \<and> buf (streams (fst (ins_char (operator_shl h os rk) c)) os)
       = buf (streams h os) @ render (keys h rk) @ [c]"
proof -
  have 1: "snd (operator_shl h os rk) = os"
    by (rule snd_operator_shl)
  have 2: "snd (operator_shl (fst (operator_shl h os rk)) (snd (operator_shl h os rk)) rk') = os"
    by (simp add: snd_operator_shl)
  have 3: "buf (streams (fst (operator_shl (fst (operator_shl h os rk)) (snd (operator_shl h os rk)) rk')) os)
       = buf (streams h os) @ render (keys h rk) @ render (keys h rk')"
    by (simp add: snd_operator_shl buf_operator_shl keys_operator_shl)
  have 4: "snd (ins_char (operator_shl h os rk) c) = os"
    by (simp add: ins_char_def operator_shl_put)
  have 5: "buf (streams (fst (ins_char (operator_shl h os rk) c)) os)
       = buf (streams h os) @ render (keys h rk) @ [c]"
    by (simp add: ins_char_def operator_shl_put streams_put render_eq)
  from 1 2 3 4 5 show ?thesis by blast
qed

text \<open>
  Claim C9. The operator does not validate the name. A key with the empty name
  renders as \<open>/\<close> followed by the read number, and for every name, empty or not, the
  operator appends the name, \<open>/\<close> and the read number to the stream; it has no error
  branch.
\<close>

theorem render_empty_qname:
  "render \<lparr>qname = [], read_no = n\<rparr> = CHR ''/'' # dec_int n
   \<and> (qname (keys h rk) = [] \<longrightarrow>
        buf (streams (fst (operator_shl h os rk)) os)
          = buf (streams h os) @ ''/'' @ dec_int (read_no (keys h rk)))
   \<and> buf (streams (fst (operator_shl h os rk)) os)
          = buf (streams h os) @ qname (keys h rk) @ ''/'' @ dec_int (read_no (keys h rk))"
  by (simp add: render_eq buf_operator_shl)

theorem render_empty_qname_witness:
  "qname (keys (fresh \<lparr>qname = [], read_no = 1\<rparr>) 0) = []
   \<and> buf (streams (fst (operator_shl (fresh \<lparr>qname = [], read_no = 1\<rparr>) 0 0)) 0) = ''/1''"
  using render_empty_qname [of 1 "fresh \<lparr>qname = [], read_no = 1\<rparr>" 0 0]
  by (simp add: fresh_def dec_int_digits)

text \<open>
  Claim C10. The operator does not restrict the read number to 0, 1, 2. For
  every integer the rendering is the name, \<open>/\<close> and the decimal numeral of the integer:
  a numeral that reads back as the integer, is a minus sign and the digits of the
  absolute value when the integer is negative, a string of decimal digits otherwise,
  with no leading zero for a positive number.
\<close>

theorem render_any_integer:
  "render \<lparr>qname = q, read_no = n\<rparr> = q @ ''/'' @ dec_int n
   \<and> int_value (dec_int n) = n
   \<and> (n < 0 \<longrightarrow> dec_int n = CHR ''-'' # dec_nat (nat (- n)))
   \<and> (0 \<le> n \<longrightarrow> dec_int n = dec_nat (nat n))
   \<and> list_all is_digit (dec_nat m)
   \<and> dec_value (dec_nat m) = m
   \<and> (0 < m \<longrightarrow> hd (dec_nat m) \<noteq> CHR ''0'')"
proof -
  have "(n < 0 \<longrightarrow> dec_int n = CHR ''-'' # dec_nat (nat (- n)))
      \<and> (0 \<le> n \<longrightarrow> dec_int n = dec_nat (nat n))"
    by (simp add: dec_int_def)
  then show ?thesis
    by (simp add: render_eq int_value_dec_int dec_nat_digits dec_value_dec_nat hd_dec_nat)
qed

theorem render_any_integer_witness:
  "(-7 :: int) < 0 \<and> (0 :: int) \<le> 12 \<and> (0 :: nat) < 7
   \<and> render \<lparr>qname = ''r'', read_no = -7\<rparr> = ''r/-7''
   \<and> render \<lparr>qname = ''r'', read_no = 12\<rparr> = ''r/12''
   \<and> render \<lparr>qname = ''r'', read_no = 3\<rparr> = ''r/3''"
  using render_any_integer [of "''r''" "-7" 7] render_any_integer [of "''r''" 12 12]
    render_any_integer [of "''r''" 3 3]
  by (simp add: dec_nat_small dec_nat_step digit_chars)

end
